theory Spec2Isabelle
  imports Complex_Main "HOL-Library.Word" "HOL-Library.Signed_Division"
begin

unbundle bit_operations_syntax

section \<open>Machine types\<close>

text \<open>
  The target is a 32-bit DSP: \<open>int\<close>, \<open>unsigned int\<close>, \<open>uint32_t\<close> and \<open>size_t\<close> are 32-bit
  words. A C \<open>int\<close> is read through \<open>sint\<close>, an unsigned value through \<open>unat\<close>; signed
  comparisons are \<open><s\<close>, unsigned ones \<open><\<close>. \<open>int16_t\<close> and \<open>uint16_t\<close> share the 16-bit
  word (the conversions between them keep the bits). A C \<open>float\<close> is only handed through
  to the library, never computed with, and is kept as its 32-bit pattern. Status codes
  are integers.
\<close>

type_synonym u8 = "8 word"
type_synonym s16 = "16 word"
type_synonym u32 = "32 word"
type_synonym c_float = "32 word"

definition EINVAL :: int where
  "EINVAL = 22"

section \<open>sof/math/numbers.h: \<open>ceil_divide\<close>\<close>

text \<open>
  C's \<open>a / b\<close> on \<open>int\<close> truncates towards zero. It is undefined for \<open>b = 0\<close> and for
  \<open>INT_MIN / -1\<close>; the model returns \<open>None\<close> there.
\<close>

definition c_int_div :: "u32 \<Rightarrow> u32 \<Rightarrow> u32 option" where
  "c_int_div a b =
     (if b = 0 \<or> (a = - (2 ^ 31) \<and> b = - 1) then None
      else Some (word_of_int (sint a sdiv sint b)))"

text \<open>
  \<^verbatim>\<open>c = a / b;
  if (!((a ^ b) & (1 << ((sizeof(int) * 8) - 1))) && c * b != a) c++;
  return c;\<close>
\<close>

definition ceil_divide :: "u32 \<Rightarrow> u32 \<Rightarrow> u32 option" where
  "ceil_divide a b =
     (case c_int_div a b of
        None \<Rightarrow> None
      | Some c \<Rightarrow>
          Some (if (a XOR b) AND push_bit (4 * 8 - 1) 1 = 0 \<and> c * b \<noteq> a then c + 1 else c))"

section \<open>The audio processing module: data\<close>

text \<open>
  The out-parameters of \<open>GoogleRtcAudioProcessingParseSofConfigMessage\<close>: the five
  decoded fields and their five presence flags, under the names of the locals of
  \<open>google_rtc_audio_processing_reconfigure\<close> that receive them.
\<close>

record sof_config_message =
  google_rtc_audio_processing_config :: "u8 list"
  google_rtc_audio_processing_config_size :: u32
  num_capture_input_channels :: u32
  num_capture_output_channels :: u32
  aec_reference_delay :: c_float
  mic_gain :: c_float
  google_rtc_audio_processing_config_present :: bool
  num_capture_input_channels_present :: bool
  num_capture_output_channels_present :: bool
  aec_reference_delay_present :: bool
  mic_gain_present :: bool

text \<open>
  The calls the module makes on its collaborators, in the order made. The log is kept
  beside the module's data so that statements about which calls happen, and in which
  order, can be written down; the code itself keeps no such log.
\<close>

datatype event =
    Call_Reconfigure "u8 list" u32
  | Call_SetStreamFormats u32 u32 u32 u32 u32
  | Call_Parameters "c_float option" "c_float option"
  | Call_AnalyzeRender_int16 "s16 list"
  | Call_ProcessCapture_int16 "s16 list"
  | Call_source_get_data nat u32
  | Call_source_release_data nat u32
  | Call_sink_get_buffer nat u32
  | Call_sink_commit_buffer nat u32

text \<open>
  \<open>struct ipc4_audio_format\<close> is declared outside these sources and is only handed to the
  pin-format helpers.
\<close>

record ipc4_audio_format =
  sampling_frequency :: u32
  depth :: u32
  channels_count :: u32

datatype sof_ipc_frame =
    SOF_IPC_FRAME_S16_LE
  | SOF_IPC_FRAME_S24_4LE
  | SOF_IPC_FRAME_S32_LE
  | SOF_IPC_FRAME_FLOAT

text \<open>
  A source pin, as far as the module sees it: the values its getters return, and the
  view that \<open>source_get_data\<close> hands out. The buffer is the region from \<open>buffer_start\<close> to
  \<open>buffer_start + buffer_size\<close> as an array of 16-bit samples (the cursors are
  \<open>uint16_t\<close> pointers), so the region is \<open>2 * length\<close> bytes long, and
  \<open>source_data_ptr\<close> is the offset of the returned data pointer from \<open>buffer_start\<close>,
  counted in samples. \<open>source_get_data_ret\<close> is the status the call returns for a
  request of the given number of bytes.
\<close>

record sof_source =
  source_id :: u32
  source_channels :: u32
  source_frame_bytes :: u32
  source_min_available :: u32
  source_byte_align :: u32
  source_frame_align_req :: u32
  source_get_data_ret :: "u32 \<Rightarrow> int"
  source_data_ptr :: nat
  source_buffer :: "s16 list"

record sof_sink =
  sink_frm_fmt :: sof_ipc_frame
  sink_rate :: u32
  sink_channels :: u32
  sink_frame_bytes :: u32
  sink_min_free_space :: u32
  sink_byte_align :: u32
  sink_frame_align_req :: u32
  sink_get_buffer_ret :: "u32 \<Rightarrow> int"
  sink_data_ptr :: nat
  sink_buffer :: "s16 list"

text \<open>
  Everything the module calls that is not defined in its own file, taken as parameters:
  the build configuration, the data-blob handler (its state is \<open>'h\<close>), the message
  reader, the echo-cancellation library (its instance state is \<open>'st\<close>) and the IPC4
  helpers. Each library call returns its status and the new instance state.
\<close>

record ('st, 'h) externals =
  CONFIG_COMP_GOOGLE_RTC_AUDIO_PROCESSING_SAMPLE_RATE_HZ :: u32
  CONFIG_FORMAT_S16LE :: bool
  IPC4_SINK_QUEUE_ID :: "u32 \<Rightarrow> u32"
  SOF_AEC_FEEDBACK_QUEUE_ID :: u32
  comp_is_current_data_blob_valid :: "'h \<Rightarrow> bool"
  comp_is_new_data_blob_available :: "'h \<Rightarrow> bool"
  comp_get_data_blob :: "'h \<Rightarrow> u8 list option \<times> u32 \<times> 'h"
  GoogleRtcAudioProcessingParseSofConfigMessage :: "u8 list \<Rightarrow> u32 \<Rightarrow> sof_config_message"
  GoogleRtcAudioProcessingReconfigure :: "'st \<Rightarrow> u8 list \<Rightarrow> u32 \<Rightarrow> int \<times> 'st"
  GoogleRtcAudioProcessingSetStreamFormats ::
    "'st \<Rightarrow> u32 \<Rightarrow> u32 \<Rightarrow> u32 \<Rightarrow> u32 \<Rightarrow> u32 \<Rightarrow> int \<times> 'st"
  GoogleRtcAudioProcessingParameters ::
    "'st \<Rightarrow> c_float option \<Rightarrow> c_float option \<Rightarrow> int \<times> 'st"
  GoogleRtcAudioProcessingAnalyzeRender_int16 :: "'st \<Rightarrow> s16 list \<Rightarrow> 'st"
  GoogleRtcAudioProcessingProcessCapture_int16 :: "'st \<Rightarrow> s16 list \<Rightarrow> s16 list \<times> 'st"
  ipc4_update_source_format :: "sof_source \<Rightarrow> ipc4_audio_format \<Rightarrow> sof_source"
  ipc4_update_sink_format :: "sof_sink \<Rightarrow> ipc4_audio_format \<Rightarrow> sof_sink"

text \<open>
  \<open>struct google_rtc_audio_processing_comp_data\<close>. \<open>state\<close> is the library instance behind
  the \<open>state\<close> pointer and \<open>tuning_handler\<close> the blob handler behind its pointer.
  \<open>aec_reference_buffer_ptrs[channel]\<close> and \<open>process_buffer_ptrs[channel]\<close> are set once, at
  init, to \<open>&buffer[channel * num_frames]\<close>, so \<open>ptrs[channel][i]\<close> is written here as
  index \<open>channel * num_frames + i\<close> of the flat buffer. \<open>reference_fmt\<close> is
  \<open>config.reference_fmt\<close> and \<open>audio_fmt\<close> is the module's \<open>base_cfg.audio_fmt\<close>.
  \<open>memory_buffer\<close> and \<open>perf\<close> play no part in what is modelled. \<open>calls\<close> is the call log.
\<close>

record ('st, 'h) comp_data =
  reference_fmt :: ipc4_audio_format
  audio_fmt :: ipc4_audio_format
  num_frames :: u32
  num_aec_reference_channels :: u32
  num_capture_channels :: u32
  state :: 'st
  aec_reference_buffer :: "s16 list"
  process_buffer :: "s16 list"
  tuning_handler :: 'h
  reconfigure :: bool
  aec_reference_source :: nat
  raw_microphone_source :: nat
  calls :: "event list"

text \<open>
  What C leaves undefined, or answers with a panic, is a fault of the model: a failed
  \<open>assert\<close>, an access outside the region a pin handed out, an access outside a scratch
  buffer, an index outside the pin arrays, a division by zero.
\<close>

datatype fault =
  Assert_failed | Region_overrun | Scratch_overrun | Bad_pin_index | Division_by_zero

section \<open>\<open>google_rtc_audio_processing_reconfigure\<close>\<close>

text \<open>Lines 154 to 167: the tuning payload goes to the library's reconfigure entry.\<close>

definition reconfigure_config ::
  "('st, 'h) externals \<Rightarrow> sof_config_message \<Rightarrow> ('st, 'h) comp_data \<Rightarrow> int \<times> ('st, 'h) comp_data"
where
  "reconfigure_config ext msg cd =
     (if google_rtc_audio_processing_config_present msg then
        (case GoogleRtcAudioProcessingReconfigure ext (state cd)
                (google_rtc_audio_processing_config msg)
                (google_rtc_audio_processing_config_size msg) of
           (ret, st) \<Rightarrow>
             (ret, cd\<lparr>state := st,
                      calls := calls cd @ [Call_Reconfigure (google_rtc_audio_processing_config msg)
                                             (google_rtc_audio_processing_config_size msg)]\<rparr>))
      else (0, cd))"

text \<open>Lines 186 to 197: the stream formats are set from the stored channel counts.\<close>

definition reconfigure_stream_formats ::
  "('st, 'h) externals \<Rightarrow> ('st, 'h) comp_data \<Rightarrow> int \<times> ('st, 'h) comp_data"
where
  "reconfigure_stream_formats ext cd =
     (case GoogleRtcAudioProcessingSetStreamFormats ext (state cd)
             (CONFIG_COMP_GOOGLE_RTC_AUDIO_PROCESSING_SAMPLE_RATE_HZ ext)
             (num_capture_channels cd) (num_capture_channels cd)
             (CONFIG_COMP_GOOGLE_RTC_AUDIO_PROCESSING_SAMPLE_RATE_HZ ext)
             (num_aec_reference_channels cd) of
        (ret, st) \<Rightarrow>
          (ret, cd\<lparr>state := st,
                   calls := calls cd @
                     [Call_SetStreamFormats
                        (CONFIG_COMP_GOOGLE_RTC_AUDIO_PROCESSING_SAMPLE_RATE_HZ ext)
                        (num_capture_channels cd) (num_capture_channels cd)
                        (CONFIG_COMP_GOOGLE_RTC_AUDIO_PROCESSING_SAMPLE_RATE_HZ ext)
                        (num_aec_reference_channels cd)]\<rparr>))"

text \<open>
  Lines 169 to 198. The branch for "only the input count is present" assigns
  \<open>num_capture_output_channels\<close>, as the source does.
\<close>

definition reconfigure_channels ::
  "('st, 'h) externals \<Rightarrow> sof_config_message \<Rightarrow> ('st, 'h) comp_data \<Rightarrow> int \<times> ('st, 'h) comp_data"
where
  "reconfigure_channels ext msg cd =
     (if num_capture_input_channels_present msg \<or> num_capture_output_channels_present msg then
        (if num_capture_input_channels_present msg \<and> num_capture_output_channels_present msg then
           (if num_capture_input_channels msg \<noteq> num_capture_output_channels msg
            then (- EINVAL, cd)
            else reconfigure_stream_formats ext
                   (cd\<lparr>num_capture_channels := num_capture_input_channels msg\<rparr>))
         else if num_capture_input_channels_present msg then
           reconfigure_stream_formats ext
             (cd\<lparr>num_capture_channels := num_capture_output_channels msg\<rparr>)
         else
           reconfigure_stream_formats ext
             (cd\<lparr>num_capture_channels := num_capture_output_channels msg\<rparr>))
      else (0, cd))"

text \<open>
  Lines 200 to 232: gain and delay go through one call; an absent one is passed as a
  null pointer.
\<close>

definition reconfigure_parameters ::
  "('st, 'h) externals \<Rightarrow> sof_config_message \<Rightarrow> ('st, 'h) comp_data \<Rightarrow> int \<times> ('st, 'h) comp_data"
where
  "reconfigure_parameters ext msg cd =
     (if aec_reference_delay_present msg \<or> mic_gain_present msg then
        (let capture_headroom_linear_use = (if mic_gain_present msg then Some (mic_gain msg) else None);
             echo_path_delay_ms_use =
               (if aec_reference_delay_present msg then Some (aec_reference_delay msg) else None)
         in case GoogleRtcAudioProcessingParameters ext (state cd)
                   capture_headroom_linear_use echo_path_delay_ms_use of
              (ret, st) \<Rightarrow>
                (ret, cd\<lparr>state := st,
                         calls := calls cd @
                           [Call_Parameters capture_headroom_linear_use echo_path_delay_ms_use]\<rparr>))
      else (0, cd))"

text \<open>Lines 141 to 234: the decoded message is applied field by field; the first
  nonzero status is returned at once.\<close>

definition reconfigure_apply ::
  "('st, 'h) externals \<Rightarrow> sof_config_message \<Rightarrow> ('st, 'h) comp_data \<Rightarrow> int \<times> ('st, 'h) comp_data"
where
  "reconfigure_apply ext msg cd =
     (case reconfigure_config ext msg cd of
        (ret, cd1) \<Rightarrow>
          if ret \<noteq> 0 then (ret, cd1)
          else (case reconfigure_channels ext msg cd1 of
                  (ret, cd2) \<Rightarrow>
                    if ret \<noteq> 0 then (ret, cd2)
                    else (case reconfigure_parameters ext msg cd2 of
                            (ret, cd3) \<Rightarrow> if ret \<noteq> 0 then (ret, cd3) else (0, cd3))))"

definition google_rtc_audio_processing_reconfigure ::
  "('st, 'h) externals \<Rightarrow> ('st, 'h) comp_data \<Rightarrow> int \<times> ('st, 'h) comp_data"
where
  "google_rtc_audio_processing_reconfigure ext cd =
     (if \<not> comp_is_current_data_blob_valid ext (tuning_handler cd) \<and>
         \<not> comp_is_new_data_blob_available ext (tuning_handler cd)
      then (0, cd)
      else (case comp_get_data_blob ext (tuning_handler cd) of
              (config, sz, h) \<Rightarrow>
                if sz = 0 then (0, cd\<lparr>tuning_handler := h\<rparr>)
                else (case config of
                        None \<Rightarrow> (- EINVAL, cd\<lparr>tuning_handler := h\<rparr>)
                      | Some blob \<Rightarrow>
                          reconfigure_apply ext
                            (GoogleRtcAudioProcessingParseSofConfigMessage ext blob sz)
                            (cd\<lparr>tuning_handler := h, reconfigure := False\<rparr>))))"

section \<open>\<open>google_rtc_audio_processing_reset\<close>\<close>


section \<open>The reconfigure step of \<open>google_rtc_audio_processing_process\<close>\<close>

text \<open>Lines 669 to 673: \<^verbatim>\<open>if (cd->reconfigure) { ret = ..._reconfigure(mod); if (ret) return ret; }\<close>\<close>

definition process_reconfigure ::
  "('st, 'h) externals \<Rightarrow> ('st, 'h) comp_data \<Rightarrow> int \<times> ('st, 'h) comp_data"
where
  "process_reconfigure ext cd =
     (if reconfigure cd then google_rtc_audio_processing_reconfigure ext cd else (0, cd))"

section \<open>\<open>google_rtc_audio_processing_prepare\<close>\<close>

text \<open>
  Modelled from the spec: \<open>source_set_alignment_constants\<close> and
  \<open>sink_set_alignment_constants\<close> belong to the pin API, which is not part of these
  sources. The spec lists them as alignment-constant hints handed to a pin; here they
  store the two constants on the pin and change nothing else.
\<close>

definition source_set_alignment_constants :: "sof_source \<Rightarrow> u32 \<Rightarrow> u32 \<Rightarrow> sof_source" where
  "source_set_alignment_constants s byte_align frame_align_req =
     s\<lparr>source_byte_align := byte_align, source_frame_align_req := frame_align_req\<rparr>"

definition sink_set_alignment_constants :: "sof_sink \<Rightarrow> u32 \<Rightarrow> u32 \<Rightarrow> sof_sink" where
  "sink_set_alignment_constants s byte_align frame_align_req =
     s\<lparr>sink_byte_align := byte_align, sink_frame_align_req := frame_align_req\<rparr>"

text \<open>
  One round of the loop of lines 493 to 507, on the module's data, the locals
  \<open>aec_channels\<close> and \<open>microphone_stream_channels\<close>, and the source pins.
\<close>

definition prepare_source_step ::
  "('st, 'h) externals \<Rightarrow> nat \<Rightarrow>
   ('st, 'h) comp_data \<times> u32 \<times> u32 \<times> sof_source list \<Rightarrow>
   ('st, 'h) comp_data \<times> u32 \<times> u32 \<times> sof_source list"
where
  "prepare_source_step ext i s =
     (case s of
        (cd, aec_channels, microphone_stream_channels, sources) \<Rightarrow>
          (if IPC4_SINK_QUEUE_ID ext (source_id (sources ! i)) = SOF_AEC_FEEDBACK_QUEUE_ID ext
           then (cd\<lparr>aec_reference_source := i\<rparr>, source_channels (sources ! i),
                 microphone_stream_channels,
                 sources[i := source_set_alignment_constants (sources ! i) 1 1])
           else (cd\<lparr>raw_microphone_source := i\<rparr>, aec_channels,
                 source_channels (sources ! i),
                 sources[i := source_set_alignment_constants (sources ! i) 1 1])))"

text \<open>
  Lines 509 to 591, after the pins have been classified. The reference channel
  comparison is between an \<open>int\<close> and an \<open>unsigned int\<close>, hence unsigned; the two capture
  channel comparisons are between \<open>int\<close>s, hence signed.
\<close>

definition prepare_checks ::
  "('st, 'h) externals \<Rightarrow> ('st, 'h) comp_data \<Rightarrow> u32 \<Rightarrow> u32 \<Rightarrow> sof_source list \<Rightarrow> sof_sink list \<Rightarrow>
   int \<times> ('st, 'h) comp_data \<times> sof_source list \<times> sof_sink list"
where
  "prepare_checks ext cd aec_channels microphone_stream_channels sources0 sinks0 =
     (let sources1 = sources0[aec_reference_source cd :=
                        ipc4_update_source_format ext (sources0 ! aec_reference_source cd)
                          (reference_fmt cd)];
          sources = sources1[raw_microphone_source cd :=
                        ipc4_update_source_format ext (sources1 ! raw_microphone_source cd)
                          (audio_fmt cd)];
          sinks1 = sinks0[0 := ipc4_update_sink_format ext (sinks0 ! 0) (audio_fmt cd)]
      in if aec_channels < num_aec_reference_channels cd then (- EINVAL, cd, sources, sinks1)
         else
           (let sinks = sinks1[0 := sink_set_alignment_constants (sinks1 ! 0) 1 1];
                frame_fmt = sink_frm_fmt (sinks ! 0);
                rate = sink_rate (sinks ! 0);
                output_stream_channels = sink_channels (sinks ! 0)
            in if microphone_stream_channels <s num_capture_channels cd
               then (- EINVAL, cd, sources, sinks)
               else if output_stream_channels <s num_capture_channels cd
               then (- EINVAL, cd, sources, sinks)
               else if \<not> (CONFIG_FORMAT_S16LE ext \<and> frame_fmt = SOF_IPC_FRAME_S16_LE)
               then (- EINVAL, cd, sources, sinks)
               else if rate \<noteq> CONFIG_COMP_GOOGLE_RTC_AUDIO_PROCESSING_SAMPLE_RATE_HZ ext
               then (- EINVAL, cd, sources, sinks)
               else if num_frames cd * source_frame_bytes (sources ! raw_microphone_source cd) \<noteq>
                       source_min_available (sources ! raw_microphone_source cd)
               then (- EINVAL, cd, sources, sinks)
               else if num_frames cd * sink_frame_bytes (sinks ! 0) \<noteq>
                       sink_min_free_space (sinks ! 0)
               then (- EINVAL, cd, sources, sinks)
               else if num_frames cd * source_frame_bytes (sources ! aec_reference_source cd) \<noteq>
                       source_min_available (sources ! aec_reference_source cd)
               then (- EINVAL, cd, sources, sinks)
               else (case google_rtc_audio_processing_reconfigure ext cd of
                       (ret, cd') \<Rightarrow>
                         if ret \<noteq> 0 then (ret, cd', sources, sinks)
                         else (0, cd', sources, sinks))))"

text \<open>
  \<open>num_of_sources\<close> and \<open>num_of_sinks\<close> are the lengths of the two pin arrays;
  \<open>GOOGLE_RTC_NUM_INPUT_PINS\<close> is 2 and \<open>GOOGLE_RTC_NUM_OUTPUT_PINS\<close> is 1. The stored
  source indices are used as array indices without a check; an index outside the array
  is a fault of the model.
\<close>

definition google_rtc_audio_processing_prepare ::
  "('st, 'h) externals \<Rightarrow> ('st, 'h) comp_data \<Rightarrow> sof_source list \<Rightarrow> sof_sink list \<Rightarrow>
   fault + int \<times> ('st, 'h) comp_data \<times> sof_source list \<times> sof_sink list"
where
  "google_rtc_audio_processing_prepare ext cd sources sinks =
     (if length sources \<noteq> 2 then Inr (- EINVAL, cd, sources, sinks)
      else if length sinks \<noteq> 1 then Inr (- EINVAL, cd, sources, sinks)
      else (case fold (prepare_source_step ext) [0..<length sources] (cd, 0, 0, sources) of
              (cd1, aec_channels, microphone_stream_channels, sources1) \<Rightarrow>
                if \<not> (aec_reference_source cd1 < length sources1 \<and>
                       raw_microphone_source cd1 < length sources1)
                then Inl Bad_pin_index
                else Inr (prepare_checks ext cd1 aec_channels microphone_stream_channels
                            sources1 sinks)))"

section \<open>\<open>google_rtc_audio_processing_process\<close>\<close>

text \<open>The build modelled is the one with \<open>BUF_TYPE\<close> = \<open>int16_t\<close> (no 32-bit float API).\<close>

definition convert_google_aec_format_to_int16 :: "s16 \<Rightarrow> s16" where
  "convert_google_aec_format_to_int16 data = data"

definition convert_int16_to_google_aec_format :: "s16 \<Rightarrow> s16" where
  "convert_int16_to_google_aec_format data = data"

text \<open>
  The de-interlace loops of lines 697 to 705 and 727 to 735 have the same shape. \<open>src\<close>
  is the region the pin handed out, \<open>cur\<close> the offset of the read cursor from the region
  start (in samples), \<open>nf\<close> the frame count, \<open>nch\<close> the channel count, \<open>buf\<close> the flat
  scratch buffer. The inner loop runs over the channels of frame \<open>i\<close>:
  \<^verbatim>\<open>ptrs[channel][i] = convert_int16_to_google_aec_format(src[channel]);\<close>
\<close>

function deinterlace_channels ::
  "s16 list \<Rightarrow> nat \<Rightarrow> nat \<Rightarrow> nat \<Rightarrow> nat \<Rightarrow> nat \<Rightarrow> s16 list \<Rightarrow> fault + s16 list"
where
  "deinterlace_channels src cur nf i nch channel buf =
     (if channel < nch then
        (if \<not> cur + channel < length src then Inl Region_overrun
         else if \<not> channel * nf + i < length buf then Inl Scratch_overrun
         else deinterlace_channels src cur nf i nch (channel + 1)
                (buf[channel * nf + i :=
                       convert_int16_to_google_aec_format (src ! (cur + channel))]))
      else Inr buf)"
  by pat_completeness auto
termination
  by (relation "measure (\<lambda>(src, cur, nf, i, nch, channel, buf). nch - channel)") auto

declare deinterlace_channels.simps [simp del]

text \<open>
  The outer loop: after each frame the cursor advances by \<open>nch\<close> samples and, if it has
  reached or passed the end of the region, goes back to the region start:
  \<^verbatim>\<open>src += nch; if ((void *)src >= (void *)src_buf_end) src = (void *)src_buf_start;\<close>
\<close>

function deinterlace ::
  "s16 list \<Rightarrow> nat \<Rightarrow> nat \<Rightarrow> nat \<Rightarrow> nat \<Rightarrow> s16 list \<Rightarrow> fault + s16 list"
where
  "deinterlace src cur nf nch i buf =
     (if i < nf then
        (case deinterlace_channels src cur nf i nch 0 buf of
           Inl f \<Rightarrow> Inl f
         | Inr buf' \<Rightarrow>
             deinterlace src (if length src \<le> cur + nch then 0 else cur + nch) nf nch (i + 1) buf')
      else Inr buf)"
  by pat_completeness auto
termination
  by (relation "measure (\<lambda>(src, cur, nf, nch, i, buf). nf - i)") auto

declare deinterlace.simps [simp del]

text \<open>
  The interlace loop of lines 756 to 763, with \<open>dst\<close> the region of the sink:
  \<^verbatim>\<open>dst[channel] = convert_google_aec_format_to_int16(ptrs[channel][i]);\<close>
\<close>

function interlace_channels ::
  "s16 list \<Rightarrow> nat \<Rightarrow> nat \<Rightarrow> nat \<Rightarrow> nat \<Rightarrow> nat \<Rightarrow> s16 list \<Rightarrow> fault + s16 list"
where
  "interlace_channels buf nf i nch channel cur dst =
     (if channel < nch then
        (if \<not> channel * nf + i < length buf then Inl Scratch_overrun
         else if \<not> cur + channel < length dst then Inl Region_overrun
         else interlace_channels buf nf i nch (channel + 1) cur
                (dst[cur + channel :=
                       convert_google_aec_format_to_int16 (buf ! (channel * nf + i))]))
      else Inr dst)"
  by pat_completeness auto
termination
  by (relation "measure (\<lambda>(buf, nf, i, nch, channel, cur, dst). nch - channel)") auto

declare interlace_channels.simps [simp del]

function interlace ::
  "s16 list \<Rightarrow> nat \<Rightarrow> nat \<Rightarrow> nat \<Rightarrow> nat \<Rightarrow> s16 list \<Rightarrow> fault + s16 list"
where
  "interlace buf nf nch i cur dst =
     (if i < nf then
        (case interlace_channels buf nf i nch 0 cur dst of
           Inl f \<Rightarrow> Inl f
         | Inr dst' \<Rightarrow>
             interlace buf nf nch (i + 1) (if length dst' \<le> cur + nch then 0 else cur + nch) dst')
      else Inr dst)"
  by pat_completeness auto
termination
  by (relation "measure (\<lambda>(buf, nf, nch, i, cur, dst). nf - i)") auto

declare interlace.simps [simp del]

text \<open>
  The loop bounds: \<open>i < cd->num_frames\<close> compares with a \<open>uint32_t\<close>, \<open>channel < n\<close> with an
  \<open>int\<close>, so a channel count that is not positive gives no round of the inner loop.
\<close>

definition frames :: "('st, 'h) comp_data \<Rightarrow> nat" where
  "frames cd = unat (num_frames cd)"

definition channels :: "u32 \<Rightarrow> nat" where
  "channels n = nat (sint n)"

text \<open>
  Lines 679 to 718: the reference stream is acquired, de-interlaced, analysed and
  released. Line 693 computes \<open>num_samples_remaining\<close>, which is never used, by a
  division by the stream's frame size.
\<close>

definition process_reference ::
  "('st, 'h) externals \<Rightarrow> ('st, 'h) comp_data \<Rightarrow> sof_source list \<Rightarrow> fault + ('st, 'h) comp_data"
where
  "process_reference ext cd sources =
     (let ref_stream = sources ! aec_reference_source cd;
          num_of_bytes_to_process = num_frames cd * source_frame_bytes ref_stream
      in if source_get_data_ret ref_stream num_of_bytes_to_process \<noteq> 0 then Inl Assert_failed
         else if source_frame_bytes ref_stream = 0 then Inl Division_by_zero
         else (case deinterlace (source_buffer ref_stream) (source_data_ptr ref_stream)
                      (frames cd) (channels (num_aec_reference_channels cd)) 0
                      (aec_reference_buffer cd) of
                 Inl f \<Rightarrow> Inl f
               | Inr b \<Rightarrow>
                   Inr (cd\<lparr>aec_reference_buffer := b,
                           state := GoogleRtcAudioProcessingAnalyzeRender_int16 ext (state cd) b,
                           calls := calls cd @
                             [Call_source_get_data (aec_reference_source cd) num_of_bytes_to_process,
                              Call_AnalyzeRender_int16 b,
                              Call_source_release_data (aec_reference_source cd)
                                num_of_bytes_to_process]\<rparr>)))"

text \<open>Lines 721 to 748: the microphone stream is acquired, de-interlaced and released,
  and the library processes the scratch buffer in place.\<close>

definition process_capture ::
  "('st, 'h) externals \<Rightarrow> ('st, 'h) comp_data \<Rightarrow> sof_source list \<Rightarrow> fault + ('st, 'h) comp_data"
where
  "process_capture ext cd sources =
     (let src_stream = sources ! raw_microphone_source cd;
          num_of_bytes_to_process = num_frames cd * source_frame_bytes src_stream
      in if source_get_data_ret src_stream num_of_bytes_to_process \<noteq> 0 then Inl Assert_failed
         else (case deinterlace (source_buffer src_stream) (source_data_ptr src_stream)
                      (frames cd) (channels (num_capture_channels cd)) 0 (process_buffer cd) of
                 Inl f \<Rightarrow> Inl f
               | Inr b \<Rightarrow>
                   (case GoogleRtcAudioProcessingProcessCapture_int16 ext (state cd) b of
                      (b', st) \<Rightarrow>
                        Inr (cd\<lparr>process_buffer := b', state := st,
                                calls := calls cd @
                                  [Call_source_get_data (raw_microphone_source cd)
                                     num_of_bytes_to_process,
                                   Call_source_release_data (raw_microphone_source cd)
                                     num_of_bytes_to_process,
                                   Call_ProcessCapture_int16 b]\<rparr>))))"

text \<open>
  Lines 750 to 765: the sink buffer is acquired, filled and committed.
  \<open>num_of_bytes_to_process\<close> still holds the value computed for the microphone stream.
\<close>

definition process_output ::
  "('st, 'h) comp_data \<Rightarrow> sof_source list \<Rightarrow> sof_sink list \<Rightarrow>
   fault + ('st, 'h) comp_data \<times> sof_sink list"
where
  "process_output cd sources sinks =
     (let src_stream = sources ! raw_microphone_source cd;
          dst_stream = sinks ! 0;
          num_of_bytes_to_process = num_frames cd * source_frame_bytes src_stream
      in if sink_get_buffer_ret dst_stream num_of_bytes_to_process \<noteq> 0 then Inl Assert_failed
         else (case interlace (process_buffer cd) (frames cd) (channels (num_capture_channels cd))
                      0 (sink_data_ptr dst_stream) (sink_buffer dst_stream) of
                 Inl f \<Rightarrow> Inl f
               | Inr d \<Rightarrow>
                   Inr (cd\<lparr>calls := calls cd @
                             [Call_sink_get_buffer 0 num_of_bytes_to_process,
                              Call_sink_commit_buffer 0 num_of_bytes_to_process]\<rparr>,
                        sinks[0 := dst_stream\<lparr>sink_buffer := d\<rparr>])))"

definition google_rtc_audio_processing_process ::
  "('st, 'h) externals \<Rightarrow> ('st, 'h) comp_data \<Rightarrow> sof_source list \<Rightarrow> sof_sink list \<Rightarrow>
   fault + int \<times> ('st, 'h) comp_data \<times> sof_sink list"
where
  "google_rtc_audio_processing_process ext cd sources sinks =
     (case process_reconfigure ext cd of
        (ret, cd0) \<Rightarrow>
          if ret \<noteq> 0 then Inr (ret, cd0, sinks)
          else if \<not> (raw_microphone_source cd0 < length sources \<and>
                      aec_reference_source cd0 < length sources \<and> 0 < length sinks)
          then Inl Bad_pin_index
          else (case process_reference ext cd0 sources of
                  Inl f \<Rightarrow> Inl f
                | Inr cd1 \<Rightarrow>
                    (case process_capture ext cd1 sources of
                       Inl f \<Rightarrow> Inl f
                     | Inr cd2 \<Rightarrow>
                         (case process_output cd2 sources sinks of
                            Inl f \<Rightarrow> Inl f
                          | Inr (cd3, sinks') \<Rightarrow> Inr (0, cd3, sinks')))))"

section \<open>Predicates of the statements\<close>



section \<open>Test doubles\<close>

text \<open>
  A stand-in for the collaborators, used to run the model on concrete inputs. The
  library instance remembers the tuning payload it was last given; its configuration
  calls return the status \<open>rc\<close>; its capture processing is the identity. The blob handler
  holds at most one blob, which is always the current one. The message reader decodes
  every blob to \<open>msg\<close>. The pin-format helpers push rate and channel count onto the pin.
\<close>

definition stub_externals :: "int \<Rightarrow> sof_config_message \<Rightarrow> (u8 list, u8 list option) externals" where
  "stub_externals rc msg =
     \<lparr>CONFIG_COMP_GOOGLE_RTC_AUDIO_PROCESSING_SAMPLE_RATE_HZ = 48000,
      CONFIG_FORMAT_S16LE = True,
      IPC4_SINK_QUEUE_ID = (\<lambda>x. x AND 0xFFFF),
      SOF_AEC_FEEDBACK_QUEUE_ID = 0,
      comp_is_current_data_blob_valid = (\<lambda>h. h \<noteq> None),
      comp_is_new_data_blob_available = (\<lambda>h. False),
      comp_get_data_blob = (\<lambda>h. (h, (case h of None \<Rightarrow> 0 | Some b \<Rightarrow> of_nat (length b)), h)),
      GoogleRtcAudioProcessingParseSofConfigMessage = (\<lambda>blob sz. msg),
      GoogleRtcAudioProcessingReconfigure = (\<lambda>st cfg sz. (rc, cfg)),
      GoogleRtcAudioProcessingSetStreamFormats = (\<lambda>st r1 c1 c2 r2 c3. (rc, st)),
      GoogleRtcAudioProcessingParameters = (\<lambda>st g d. (rc, st)),
      GoogleRtcAudioProcessingAnalyzeRender_int16 = (\<lambda>st b. st),
      GoogleRtcAudioProcessingProcessCapture_int16 = (\<lambda>st b. (b, st)),
      ipc4_update_source_format =
        (\<lambda>s f. s\<lparr>source_channels := channels_count f\<rparr>),
      ipc4_update_sink_format =
        (\<lambda>s f. s\<lparr>sink_channels := channels_count f, sink_rate := sampling_frequency f\<rparr>)\<rparr>"

definition stub_fmt :: "u32 \<Rightarrow> ipc4_audio_format" where
  "stub_fmt ch = \<lparr>sampling_frequency = 48000, depth = 16, channels_count = ch\<rparr>"

text \<open>A module instance with two capture and two reference channels, two frames per
  cycle, holding the blob \<open>h\<close>, with the pending flag \<open>p\<close>.\<close>

definition stub_cd :: "u8 list option \<Rightarrow> bool \<Rightarrow> (u8 list, u8 list option) comp_data" where
  "stub_cd h p =
     \<lparr>reference_fmt = stub_fmt 2, audio_fmt = stub_fmt 2,
      num_frames = 2, num_aec_reference_channels = 2, num_capture_channels = 2,
      state = [], aec_reference_buffer = [0, 0, 0, 0], process_buffer = [0, 0, 0, 0],
      tuning_handler = h, reconfigure = p,
      aec_reference_source = 0, raw_microphone_source = 1, calls = []\<rparr>"

text \<open>A decoded message with nothing present, to be filled in field by field.\<close>

definition stub_msg :: sof_config_message where
  "stub_msg =
     \<lparr>google_rtc_audio_processing_config = [],
      google_rtc_audio_processing_config_size = 0,
      num_capture_input_channels = 0,
      num_capture_output_channels = 0,
      aec_reference_delay = 0,
      mic_gain = 0,
      google_rtc_audio_processing_config_present = False,
      num_capture_input_channels_present = False,
      num_capture_output_channels_present = False,
      aec_reference_delay_present = False,
      mic_gain_present = False\<rparr>"

text \<open>
  Pins for a cycle of two frames of 16-bit samples: a source with the given id,
  channel count, cursor offset and region, and a sink with the given rate, channel
  count, cursor offset and region. Every acquire succeeds.
\<close>

definition stub_source :: "u32 \<Rightarrow> u32 \<Rightarrow> nat \<Rightarrow> s16 list \<Rightarrow> sof_source" where
  "stub_source ident ch ptr b =
     \<lparr>source_id = ident, source_channels = ch, source_frame_bytes = 2 * ch,
      source_min_available = 4 * ch, source_byte_align = 0, source_frame_align_req = 0,
      source_get_data_ret = (\<lambda>n. 0), source_data_ptr = ptr, source_buffer = b\<rparr>"

definition stub_sink :: "u32 \<Rightarrow> u32 \<Rightarrow> nat \<Rightarrow> s16 list \<Rightarrow> sof_sink" where
  "stub_sink rate ch ptr b =
     \<lparr>sink_frm_fmt = SOF_IPC_FRAME_S16_LE, sink_rate = rate, sink_channels = ch,
      sink_frame_bytes = 2 * ch, sink_min_free_space = 4 * ch, sink_byte_align = 0,
      sink_frame_align_req = 0, sink_get_buffer_ret = (\<lambda>n. 0), sink_data_ptr = ptr,
      sink_buffer = b\<rparr>"

section \<open>Properties of reconfigure and reset\<close>

lemma reconfigure_config_keeps:
  "reconfigure_config ext msg cd = (ret, cd') \<Longrightarrow>
     reconfigure cd' = reconfigure cd \<and> num_capture_channels cd' = num_capture_channels cd
     \<and> tuning_handler cd' = tuning_handler cd"
  by (auto simp add: reconfigure_config_def split: if_splits prod.splits)

lemma reconfigure_stream_formats_keeps:
  "reconfigure_stream_formats ext cd = (ret, cd') \<Longrightarrow>
     reconfigure cd' = reconfigure cd \<and> num_capture_channels cd' = num_capture_channels cd"
  by (auto simp add: reconfigure_stream_formats_def split: prod.splits)

lemma reconfigure_channels_flag:
  "reconfigure_channels ext msg cd = (ret, cd') \<Longrightarrow> reconfigure cd' = reconfigure cd"
  by (auto simp add: reconfigure_channels_def split: if_splits
           dest!: reconfigure_stream_formats_keeps)

lemma reconfigure_parameters_keeps:
  "reconfigure_parameters ext msg cd = (ret, cd') \<Longrightarrow>
     reconfigure cd' = reconfigure cd \<and> num_capture_channels cd' = num_capture_channels cd"
  by (auto simp add: reconfigure_parameters_def Let_def split: if_splits prod.splits)

lemma reconfigure_apply_flag:
  assumes "reconfigure_apply ext msg cd = (ret, cd')"
  shows "reconfigure cd' = reconfigure cd"
proof -
  obtain r1 cd1 where 1: "reconfigure_config ext msg cd = (r1, cd1)" by (cases "reconfigure_config ext msg cd")
  obtain r2 cd2 where 2: "reconfigure_channels ext msg cd1 = (r2, cd2)" by (cases "reconfigure_channels ext msg cd1")
  obtain r3 cd3 where 3: "reconfigure_parameters ext msg cd2 = (r3, cd3)" by (cases "reconfigure_parameters ext msg cd2")
  have f: "reconfigure cd1 = reconfigure cd" "reconfigure cd2 = reconfigure cd1" "reconfigure cd3 = reconfigure cd2"
    using reconfigure_config_keeps [OF 1] reconfigure_channels_flag [OF 2]
      reconfigure_parameters_keeps [OF 3] by simp_all
  from assms have "cd' = cd1 \<or> cd' = cd2 \<or> cd' = cd3"
    by (auto simp add: reconfigure_apply_def 1 2 3 split: if_splits)
  with f show ?thesis by auto
qed

text \<open>
  Claim C9. Once \<open>google_rtc_audio_processing_reconfigure\<close> has obtained a non-null,
  non-empty blob, the pending flag is clear when it returns, whatever status it returns
  (so also when it fails on a channel-count mismatch or on a library call); the
  reconfigure step of the following cycles is then skipped: it returns success and
  changes nothing.
\<close>

theorem pending_flag_cleared_once_blob_obtained:
  assumes "comp_is_current_data_blob_valid ext (tuning_handler cd) \<or>
           comp_is_new_data_blob_available ext (tuning_handler cd)"
    and "comp_get_data_blob ext (tuning_handler cd) = (Some blob, sz, h)"
    and "sz \<noteq> 0"
    and "google_rtc_audio_processing_reconfigure ext cd = (ret, cd')"
  shows "\<not> reconfigure cd' \<and> process_reconfigure ext cd' = (0, cd')"
proof -
  from assms have "reconfigure_apply ext (GoogleRtcAudioProcessingParseSofConfigMessage ext blob sz)
      (cd\<lparr>tuning_handler := h, reconfigure := False\<rparr>) = (ret, cd')"
    by (auto simp add: google_rtc_audio_processing_reconfigure_def)
  from reconfigure_apply_flag [OF this] have "\<not> reconfigure cd'" by simp
  then show ?thesis by (simp add: process_reconfigure_def)
qed

text \<open>
  Claim C6. When the pending flag is clear, or when no blob was ever supplied (no
  current blob and no new one), the reconfigure step of a cycle returns success and
  leaves the module's data as it was: the capture channel count, the library instance
  and the call log are unchanged, so no library call was made.
\<close>

theorem apply_step_noop:
  assumes "\<not> reconfigure cd \<or>
           (\<not> comp_is_current_data_blob_valid ext (tuning_handler cd) \<and>
            \<not> comp_is_new_data_blob_available ext (tuning_handler cd))"
  shows "process_reconfigure ext cd = (0, cd)"
  using assms by (auto simp add: process_reconfigure_def google_rtc_audio_processing_reconfigure_def)


text \<open>The channel-count mismatch: the call fails with \<open>-EINVAL\<close> and the flag is clear.\<close>

theorem pending_flag_cleared_once_blob_obtained_witness:
  "fst (google_rtc_audio_processing_reconfigure
          (stub_externals 0 (stub_msg\<lparr>num_capture_input_channels := 2,
             num_capture_output_channels := 1,
             num_capture_input_channels_present := True,
             num_capture_output_channels_present := True\<rparr>))
          (stub_cd (Some [1]) True)) = - EINVAL
   \<and> \<not> reconfigure (snd (google_rtc_audio_processing_reconfigure
          (stub_externals 0 (stub_msg\<lparr>num_capture_input_channels := 2,
             num_capture_output_channels := 1,
             num_capture_input_channels_present := True,
             num_capture_output_channels_present := True\<rparr>))
          (stub_cd (Some [1]) True)))"
proof -
  let ?ext = "stub_externals 0 (stub_msg\<lparr>num_capture_input_channels := 2,
             num_capture_output_channels := 1,
             num_capture_input_channels_present := True,
             num_capture_output_channels_present := True\<rparr>)"
  let ?cd = "stub_cd (Some [1]) True"
  have 1: "comp_is_current_data_blob_valid ?ext (tuning_handler ?cd) \<or>
           comp_is_new_data_blob_available ?ext (tuning_handler ?cd)"
    by (simp add: stub_externals_def stub_cd_def)
  have 2: "comp_get_data_blob ?ext (tuning_handler ?cd) = (Some [1], 1, Some [1])"
    by (simp add: stub_externals_def stub_cd_def)
  have 3: "(1 :: u32) \<noteq> 0" by simp
  have 4: "google_rtc_audio_processing_reconfigure ?ext ?cd =
            (fst (google_rtc_audio_processing_reconfigure ?ext ?cd),
             snd (google_rtc_audio_processing_reconfigure ?ext ?cd))" by simp
  have 5: "fst (google_rtc_audio_processing_reconfigure ?ext ?cd) = - EINVAL"
    by (simp add: google_rtc_audio_processing_reconfigure_def reconfigure_apply_def
          reconfigure_config_def reconfigure_channels_def EINVAL_def stub_externals_def stub_cd_def
          stub_msg_def)
  from pending_flag_cleared_once_blob_obtained [OF 1 2 3 4] 5 show ?thesis by simp
qed

theorem apply_step_noop_witness:
  "process_reconfigure (stub_externals 0 stub_msg) (stub_cd (Some [1]) False)
     = (0, stub_cd (Some [1]) False)
   \<and> process_reconfigure (stub_externals 0 stub_msg) (stub_cd None True)
     = (0, stub_cd None True)"
proof -
  have 1: "\<not> reconfigure (stub_cd (Some [1]) False :: (u8 list, u8 list option) comp_data)"
    by (simp add: stub_cd_def)
  have 2: "\<not> comp_is_current_data_blob_valid (stub_externals 0 stub_msg) (tuning_handler (stub_cd None True))
         \<and> \<not> comp_is_new_data_blob_available (stub_externals 0 stub_msg) (tuning_handler (stub_cd None True))"
    by (simp add: stub_externals_def stub_cd_def)
  show ?thesis
    using apply_step_noop [of "stub_cd (Some [1]) False" "stub_externals 0 stub_msg"]
      apply_step_noop [of "stub_cd None True" "stub_externals 0 stub_msg"] 1 2
    by blast
qed



text \<open>
  Claim C1 at a blob that carries the input channel count 2 and no output channel
  count: the stored capture channel count becomes the value of the absent output field
  (here 0), not 2, and the library is told 0 channels.
\<close>

theorem input_only_count_ignored:
  "num_capture_input_channels_present (stub_msg\<lparr>num_capture_input_channels := 2,
       num_capture_input_channels_present := True\<rparr>)
   \<and> \<not> num_capture_output_channels_present (stub_msg\<lparr>num_capture_input_channels := 2,
       num_capture_input_channels_present := True\<rparr>)
   \<and> google_rtc_audio_processing_reconfigure
       (stub_externals 0 (stub_msg\<lparr>num_capture_input_channels := 2,
          num_capture_input_channels_present := True\<rparr>))
       (stub_cd (Some [1]) True)
     = (0, (stub_cd (Some [1]) False)
             \<lparr>num_capture_channels := 0, calls := [Call_SetStreamFormats 48000 0 0 48000 2]\<rparr>)"
  by (simp add: google_rtc_audio_processing_reconfigure_def reconfigure_apply_def
        reconfigure_config_def reconfigure_channels_def reconfigure_stream_formats_def
        reconfigure_parameters_def EINVAL_def stub_externals_def stub_cd_def stub_msg_def)

text \<open>
  Claim C2, as the code has it. With both counts present and unequal the call fails,
  the stored capture channel count is unchanged, and neither the stream formats nor
  gain and delay are set. With no tuning payload in the blob the status is \<open>-EINVAL\<close> and
  the library instance is untouched. With a tuning payload, that payload has already
  been given to the library's reconfigure entry: this is the one call made, the
  instance is what that call left, and the status is that call's if it failed and
  \<open>-EINVAL\<close> otherwise.
\<close>

theorem mismatch_keeps_channel_count:
  assumes "comp_is_current_data_blob_valid ext (tuning_handler cd) \<or>
           comp_is_new_data_blob_available ext (tuning_handler cd)"
    and "comp_get_data_blob ext (tuning_handler cd) = (Some blob, sz, h)"
    and "sz \<noteq> 0"
    and "GoogleRtcAudioProcessingParseSofConfigMessage ext blob sz = msg"
    and "num_capture_input_channels_present msg"
    and "num_capture_output_channels_present msg"
    and "num_capture_input_channels msg \<noteq> num_capture_output_channels msg"
    and "google_rtc_audio_processing_reconfigure ext cd = (ret, cd')"
  shows "ret \<noteq> 0 \<and> num_capture_channels cd' = num_capture_channels cd \<and>
         (if google_rtc_audio_processing_config_present msg then
            state cd' = snd (GoogleRtcAudioProcessingReconfigure ext (state cd)
                               (google_rtc_audio_processing_config msg)
                               (google_rtc_audio_processing_config_size msg))
            \<and> calls cd' = calls cd @ [Call_Reconfigure (google_rtc_audio_processing_config msg)
                                        (google_rtc_audio_processing_config_size msg)]
            \<and> ret = (if fst (GoogleRtcAudioProcessingReconfigure ext (state cd)
                               (google_rtc_audio_processing_config msg)
                               (google_rtc_audio_processing_config_size msg)) \<noteq> 0
                      then fst (GoogleRtcAudioProcessingReconfigure ext (state cd)
                               (google_rtc_audio_processing_config msg)
                               (google_rtc_audio_processing_config_size msg))
                      else - EINVAL)
          else state cd' = state cd \<and> calls cd' = calls cd \<and> ret = - EINVAL)"
  using assms
  by (auto simp add: google_rtc_audio_processing_reconfigure_def reconfigure_apply_def
        reconfigure_config_def reconfigure_channels_def EINVAL_def
        split: if_splits prod.splits)

theorem mismatch_keeps_channel_count_witness:
  "fst (google_rtc_audio_processing_reconfigure
          (stub_externals 0 (stub_msg\<lparr>num_capture_input_channels := 4,
             num_capture_output_channels := 2,
             num_capture_input_channels_present := True,
             num_capture_output_channels_present := True\<rparr>))
          (stub_cd (Some [5, 6]) True)) = - EINVAL
   \<and> num_capture_channels (snd (google_rtc_audio_processing_reconfigure
          (stub_externals 0 (stub_msg\<lparr>num_capture_input_channels := 4,
             num_capture_output_channels := 2,
             num_capture_input_channels_present := True,
             num_capture_output_channels_present := True\<rparr>))
          (stub_cd (Some [5, 6]) True))) = 2
   \<and> calls (snd (google_rtc_audio_processing_reconfigure
          (stub_externals 0 (stub_msg\<lparr>num_capture_input_channels := 4,
             num_capture_output_channels := 2,
             num_capture_input_channels_present := True,
             num_capture_output_channels_present := True\<rparr>))
          (stub_cd (Some [5, 6]) True))) = []"
proof -
  let ?msg = "stub_msg\<lparr>num_capture_input_channels := 4,
             num_capture_output_channels := 2,
             num_capture_input_channels_present := True,
             num_capture_output_channels_present := True\<rparr>"
  let ?ext = "stub_externals 0 ?msg"
  let ?cd = "stub_cd (Some [5, 6]) True"
  have 1: "comp_is_current_data_blob_valid ?ext (tuning_handler ?cd) \<or>
           comp_is_new_data_blob_available ?ext (tuning_handler ?cd)"
    by (simp add: stub_externals_def stub_cd_def)
  have 2: "comp_get_data_blob ?ext (tuning_handler ?cd) = (Some [5, 6], 2, Some [5, 6])"
    by (simp add: stub_externals_def stub_cd_def)
  have 3: "(2 :: u32) \<noteq> 0" by simp
  have 4: "GoogleRtcAudioProcessingParseSofConfigMessage ?ext [5, 6] 2 = ?msg"
    by (simp add: stub_externals_def)
  have 5: "num_capture_input_channels_present ?msg" "num_capture_output_channels_present ?msg"
    "num_capture_input_channels ?msg \<noteq> num_capture_output_channels ?msg"
    "\<not> google_rtc_audio_processing_config_present ?msg"
    by (simp_all add: stub_msg_def)
  have 6: "google_rtc_audio_processing_reconfigure ?ext ?cd =
            (fst (google_rtc_audio_processing_reconfigure ?ext ?cd),
             snd (google_rtc_audio_processing_reconfigure ?ext ?cd))" by simp
  have 7: "num_capture_channels ?cd = 2" "calls ?cd = []" by (simp_all add: stub_cd_def)
  from mismatch_keeps_channel_count [OF 1 2 3 4 5(1) 5(2) 5(3) 6] 5(4) 7
  show ?thesis by simp
qed

text \<open>
  The claim as stated fails when the blob also carries a tuning payload: the call
  fails with \<open>-EINVAL\<close>, yet the library instance has taken the new payload.
\<close>

theorem mismatch_partial_update_counterexample:
  "num_capture_input_channels_present (stub_msg\<lparr>google_rtc_audio_processing_config := [7, 8],
       google_rtc_audio_processing_config_size := 2,
       num_capture_input_channels := 2, num_capture_output_channels := 1,
       google_rtc_audio_processing_config_present := True,
       num_capture_input_channels_present := True,
       num_capture_output_channels_present := True\<rparr>)
   \<and> fst (google_rtc_audio_processing_reconfigure
          (stub_externals 0 (stub_msg\<lparr>google_rtc_audio_processing_config := [7, 8],
             google_rtc_audio_processing_config_size := 2,
             num_capture_input_channels := 2, num_capture_output_channels := 1,
             google_rtc_audio_processing_config_present := True,
             num_capture_input_channels_present := True,
             num_capture_output_channels_present := True\<rparr>))
          (stub_cd (Some [1]) True)) = - EINVAL
   \<and> state (snd (google_rtc_audio_processing_reconfigure
          (stub_externals 0 (stub_msg\<lparr>google_rtc_audio_processing_config := [7, 8],
             google_rtc_audio_processing_config_size := 2,
             num_capture_input_channels := 2, num_capture_output_channels := 1,
             google_rtc_audio_processing_config_present := True,
             num_capture_input_channels_present := True,
             num_capture_output_channels_present := True\<rparr>))
          (stub_cd (Some [1]) True))) = [7, 8]
   \<and> state (stub_cd (Some [1]) True) = []"
  by (simp add: google_rtc_audio_processing_reconfigure_def reconfigure_apply_def
        reconfigure_config_def reconfigure_channels_def reconfigure_stream_formats_def
        reconfigure_parameters_def EINVAL_def stub_externals_def stub_cd_def stub_msg_def)

section \<open>Properties of prepare\<close>

lemma upt_0_2: "[0..<2] = [0, Suc 0]"
  by (simp add: upt_rec numeral_2_eq_2)







section \<open>Properties of process\<close>
















lemma planar_index:
  fixes i nf c k :: nat
  assumes "i < nf"
  shows "k = c * nf + i \<longleftrightarrow> k mod nf = i \<and> k div nf = c"
proof
  assume "k = c * nf + i"
  with assms show "k mod nf = i \<and> k div nf = c" by simp
next
  assume "k mod nf = i \<and> k div nf = c"
  then show "k = c * nf + i" using div_mult_mod_eq [of k nf] by simp
qed

lemma planar_bound:
  fixes i nf c nch :: nat
  assumes "i < nf" "c < nch"
  shows "c * nf + i < nch * nf"
proof -
  have "c * nf + i < c * nf + nf" using assms(1) by simp
  also have "\<dots> = (c + 1) * nf" by simp
  also have "\<dots> \<le> nch * nf" using assms(2) by (intro mult_le_mono1) simp
  finally show ?thesis .
qed

lemma deinterlace_channels_result:
  assumes "cur + nch \<le> length src" "i < nf" "nch * nf \<le> length buf"
  shows "\<exists>buf'. deinterlace_channels src cur nf i nch c buf = Inr buf'
           \<and> length buf' = length buf
           \<and> (\<forall>k<length buf. buf' ! k =
                 (if k mod nf = i \<and> c \<le> k div nf \<and> k div nf < nch
                  then src ! (cur + k div nf) else buf ! k))"
  using assms
proof (induction src cur nf i nch c buf rule: deinterlace_channels.induct)
  case (1 src cur nf i nch channel buf)
  show ?case
  proof (cases "channel < nch")
    case False
    then show ?thesis
      by (auto simp add: deinterlace_channels.simps [of src cur nf i nch channel buf])
  next
    case True
    let ?b = "buf[channel * nf + i := convert_int16_to_google_aec_format (src ! (cur + channel))]"
    have r: "cur + channel < length src" using True "1.prems"(1) by simp
    have w: "channel * nf + i < length buf"
      using planar_bound [OF "1.prems"(2) True] "1.prems"(3) by simp
    from "1.IH" [OF True _ _ "1.prems"(1,2)] r w "1.prems"(3)
    obtain buf' where
      b: "deinterlace_channels src cur nf i nch (channel + 1) ?b = Inr buf'"
         "length buf' = length buf"
         "\<forall>k<length buf. buf' ! k =
            (if k mod nf = i \<and> channel + 1 \<le> k div nf \<and> k div nf < nch
             then src ! (cur + k div nf) else ?b ! k)"
      by auto
    have e: "deinterlace_channels src cur nf i nch channel buf = Inr buf'"
      using True r w b(1) by (simp add: deinterlace_channels.simps [of src cur nf i nch channel buf])
    have "buf' ! k =
            (if k mod nf = i \<and> channel \<le> k div nf \<and> k div nf < nch
             then src ! (cur + k div nf) else buf ! k)" if k: "k < length buf" for k
    proof (cases "k = channel * nf + i")
      case True
      then have "k mod nf = i" "k div nf = channel" using planar_index [OF "1.prems"(2)] by auto
      with True b(3) k \<open>channel < nch\<close> show ?thesis
        by (simp add: convert_int16_to_google_aec_format_def)
    next
      case False
      then have "\<not> (k mod nf = i \<and> k div nf = channel)"
        using planar_index [OF "1.prems"(2)] by auto
      with False b(3) k show ?thesis by (auto simp add: le_less Suc_le_eq)
    qed
    with e b(2) show ?thesis by blast
  qed
qed


lemma no_wrap_next:
  fixes cur nf i nch len :: nat
  assumes "i < nf" "cur + (nf - i) * nch \<le> len"
  shows "cur + nch \<le> len"
    and "i + 1 < nf \<Longrightarrow> 0 < nch \<Longrightarrow> \<not> len \<le> cur + nch"
    and "i + 1 < nf \<Longrightarrow>
           (if len \<le> cur + nch then 0 else cur + nch) + (nf - (i + 1)) * nch \<le> len"
proof -
  from assms(1) obtain d where d: "nf - i = Suc d" by (metis Suc_diff_Suc)
  with assms(2) have s: "cur + nch + d * nch \<le> len" by simp
  then show "cur + nch \<le> len" by simp
  have d': "nf - (i + 1) = d" using d by simp
  {
    assume "i + 1 < nf" "0 < nch"
    then have "0 < d" using d' by simp
    then have "nch \<le> d * nch" by simp
    with s have "cur + nch + nch \<le> len" by linarith
    with \<open>0 < nch\<close> show "\<not> len \<le> cur + nch" by linarith
  }
  {
    assume "i + 1 < nf"
    then have "0 < d" using d' by simp
    show "(if len \<le> cur + nch then 0 else cur + nch) + (nf - (i + 1)) * nch \<le> len"
      using s d' by (simp add: trans_le_add2)
  }
qed

lemma deinterlace_result:
  assumes "i < nf \<longrightarrow> cur + (nf - i) * nch \<le> length src" "nch * nf \<le> length buf"
  shows "\<exists>buf'. deinterlace src cur nf nch i buf = Inr buf'
           \<and> length buf' = length buf
           \<and> (\<forall>k<length buf. buf' ! k =
                 (if i < nf \<and> i \<le> k mod nf \<and> k div nf < nch
                  then src ! (cur + (k mod nf - i) * nch + k div nf) else buf ! k))"
  using assms
proof (induction src cur nf nch i buf rule: deinterlace.induct)
  case (1 src cur nf nch i buf)
  show ?case
  proof (cases "i < nf")
    case False
    then show ?thesis by (simp add: deinterlace.simps [of src cur nf nch i buf])
  next
    case True
    with "1.prems"(1) have fit: "cur + (nf - i) * nch \<le> length src" by simp
    note nw = no_wrap_next [OF True fit]
    from deinterlace_channels_result [OF nw(1) True "1.prems"(2), of 0]
    obtain buf1 where
      c: "deinterlace_channels src cur nf i nch 0 buf = Inr buf1" "length buf1 = length buf"
         "\<forall>k<length buf. buf1 ! k =
            (if k mod nf = i \<and> k div nf < nch then src ! (cur + k div nf) else buf ! k)"
      by auto
    let ?cur = "if length src \<le> cur + nch then 0 else cur + nch"
    have "i + 1 < nf \<longrightarrow> ?cur + (nf - (i + 1)) * nch \<le> length src"
      using nw(3) by blast
    from "1.IH" [OF True c(1) this] c(2) "1.prems"(2)
    obtain buf' where
      r: "deinterlace src ?cur nf nch (i + 1) buf1 = Inr buf'" "length buf' = length buf"
         "\<forall>k<length buf. buf' ! k =
            (if i + 1 < nf \<and> i + 1 \<le> k mod nf \<and> k div nf < nch
             then src ! (?cur + (k mod nf - (i + 1)) * nch + k div nf) else buf1 ! k)"
      by auto
    have e: "deinterlace src cur nf nch i buf = Inr buf'"
      using True c(1) r(1) by (simp add: deinterlace.simps [of src cur nf nch i buf])
    have "buf' ! k =
            (if i < nf \<and> i \<le> k mod nf \<and> k div nf < nch
             then src ! (cur + (k mod nf - i) * nch + k div nf) else buf ! k)"
      if k: "k < length buf" for k
    proof (cases "i \<le> k mod nf \<and> k div nf < nch")
      case False
      with r(3) c(3) k True show ?thesis by auto
    next
      case inr: True
      then have nch: "0 < nch" by auto
      have nf: "k mod nf < nf" using True by simp
      show ?thesis
      proof (cases "k mod nf = i")
        case True
        with r(3) c(3) k inr \<open>i < nf\<close> show ?thesis by simp
      next
        case False
        with inr have later: "i + 1 \<le> k mod nf" by simp
        with nf have more: "i + 1 < nf" by simp
        have cur': "?cur = cur + nch" using nw(2) [OF more nch] by simp
        obtain m where m: "k mod nf - i = Suc m" using later by (metis Suc_diff_Suc Suc_eq_plus1 less_eq_Suc_le)
        then have m': "k mod nf - (i + 1) = m" by simp
        have "buf' ! k = src ! (?cur + (k mod nf - (i + 1)) * nch + k div nf)"
          using r(3) k more later inr by simp
        also have "\<dots> = src ! (cur + (k mod nf - i) * nch + k div nf)"
          unfolding cur' m m' by (simp add: add.assoc)
        finally show ?thesis using True inr by simp
      qed
    qed
    with e r(2) show ?thesis by blast
  qed
qed

lemma interlace_channels_result:
  assumes "cur + nch \<le> length dst" "i < nf" "nch * nf \<le> length buf"
  shows "\<exists>dst'. interlace_channels buf nf i nch c cur dst = Inr dst'
           \<and> length dst' = length dst
           \<and> (\<forall>k<length dst. dst' ! k =
                 (if cur + c \<le> k \<and> k < cur + nch
                  then buf ! ((k - cur) * nf + i) else dst ! k))"
  using assms
proof (induction buf nf i nch c cur dst rule: interlace_channels.induct)
  case (1 buf nf i nch channel cur dst)
  show ?case
  proof (cases "channel < nch")
    case False
    then show ?thesis
      by (auto simp add: interlace_channels.simps [of buf nf i nch channel cur dst])
  next
    case True
    let ?d = "dst[cur + channel := convert_google_aec_format_to_int16 (buf ! (channel * nf + i))]"
    have w: "cur + channel < length dst" using True "1.prems"(1) by simp
    have r: "channel * nf + i < length buf"
      using planar_bound [OF "1.prems"(2) True] "1.prems"(3) by simp
    from "1.IH" [OF True _ _ _ "1.prems"(2,3)] r w "1.prems"(1)
    obtain dst' where
      b: "interlace_channels buf nf i nch (channel + 1) cur ?d = Inr dst'"
         "length dst' = length dst"
         "\<forall>k<length dst. dst' ! k =
            (if cur + (channel + 1) \<le> k \<and> k < cur + nch
             then buf ! ((k - cur) * nf + i) else ?d ! k)"
      by auto
    have e: "interlace_channels buf nf i nch channel cur dst = Inr dst'"
      using True r w b(1) by (simp add: interlace_channels.simps [of buf nf i nch channel cur dst])
    have "dst' ! k =
            (if cur + channel \<le> k \<and> k < cur + nch
             then buf ! ((k - cur) * nf + i) else dst ! k)" if k: "k < length dst" for k
    proof (cases "k = cur + channel")
      case True
      with b(3) k \<open>channel < nch\<close> show ?thesis
        by (simp add: convert_google_aec_format_to_int16_def)
    next
      case False
      with b(3) k show ?thesis by auto
    qed
    with e b(2) show ?thesis by blast
  qed
qed


lemma interlace_result:
  assumes "i < nf \<longrightarrow> cur + (nf - i) * nch \<le> length dst" "nch * nf \<le> length buf"
  shows "\<exists>dst'. interlace buf nf nch i cur dst = Inr dst'
           \<and> length dst' = length dst
           \<and> (\<forall>k<length dst. dst' ! k =
                 (if i < nf \<and> cur \<le> k \<and> k < cur + (nf - i) * nch
                  then buf ! (((k - cur) mod nch) * nf + (i + (k - cur) div nch))
                  else dst ! k))"
  using assms
proof (induction buf nf nch i cur dst rule: interlace.induct)
  case (1 buf nf nch i cur dst)
  show ?case
  proof (cases "i < nf")
    case False
    then show ?thesis by (simp add: interlace.simps [of buf nf nch i cur dst])
  next
    case True
    with "1.prems"(1) have fit: "cur + (nf - i) * nch \<le> length dst" by simp
    note nw = no_wrap_next [OF True fit]
    from interlace_channels_result [OF nw(1) True "1.prems"(2), of 0]
    obtain dst1 where
      c: "interlace_channels buf nf i nch 0 cur dst = Inr dst1" "length dst1 = length dst"
         "\<forall>k<length dst. dst1 ! k =
            (if cur \<le> k \<and> k < cur + nch then buf ! ((k - cur) * nf + i) else dst ! k)"
      by auto
    let ?cur = "if length dst1 \<le> cur + nch then 0 else cur + nch"
    have "i + 1 < nf \<longrightarrow> ?cur + (nf - (i + 1)) * nch \<le> length dst1"
      using nw(3) c(2) by simp
    from "1.IH" [OF True c(1) this "1.prems"(2)] c(2)
    obtain dst' where
      r: "interlace buf nf nch (i + 1) ?cur dst1 = Inr dst'" "length dst' = length dst"
         "\<forall>k<length dst. dst' ! k =
            (if i + 1 < nf \<and> ?cur \<le> k \<and> k < ?cur + (nf - (i + 1)) * nch
             then buf ! (((k - ?cur) mod nch) * nf + (i + 1 + (k - ?cur) div nch))
             else dst1 ! k)"
      by auto
    have e: "interlace buf nf nch i cur dst = Inr dst'"
      using True c(1) r(1) by (simp add: interlace.simps [of buf nf nch i cur dst])
    from True obtain d where d: "nf - i = Suc d" by (metis Suc_diff_Suc)
    then have d': "nf - (i + 1) = d" by simp
    have "dst' ! k =
            (if i < nf \<and> cur \<le> k \<and> k < cur + (nf - i) * nch
             then buf ! (((k - cur) mod nch) * nf + (i + (k - cur) div nch))
             else dst ! k)"
      if k: "k < length dst" for k
    proof (cases "0 < nch")
      case False
      then have z: "nch = 0" by simp
      from r(3) k have "dst' ! k =
            (if i + 1 < nf \<and> ?cur \<le> k \<and> k < ?cur + (nf - (i + 1)) * nch
             then buf ! (((k - ?cur) mod nch) * nf + (i + 1 + (k - ?cur) div nch))
             else dst1 ! k)" by blast
      then have "dst' ! k = dst1 ! k" unfolding z by auto
      moreover from c(3) k have "dst1 ! k =
            (if cur \<le> k \<and> k < cur + nch then buf ! ((k - cur) * nf + i) else dst ! k)"
        by blast
      then have "dst1 ! k = dst ! k" unfolding z by auto
      ultimately show ?thesis unfolding z by auto
    next
      case nch: True
      have cur': "i + 1 < nf \<Longrightarrow> ?cur = cur + nch"
        using nw(2) [OF _ nch] c(2) by simp
      show ?thesis
      proof (cases "cur \<le> k \<and> k < cur + nch")
        case first: True
        then have "k - cur < nch" by linarith
        then have "(k - cur) mod nch = k - cur" "(k - cur) div nch = 0" by simp_all
        moreover have "dst' ! k = dst1 ! k"
          using r(3) k first cur' by (cases "i + 1 < nf") simp_all
        ultimately show ?thesis using c(3) k first True d by simp
      next
        case other: False
        show ?thesis
        proof (cases "cur + nch \<le> k \<and> k < cur + (nf - i) * nch")
          case False
          with other have out: "\<not> (cur \<le> k \<and> k < cur + (nf - i) * nch)" using d by auto
          have "dst' ! k = dst1 ! k"
          proof (cases "i + 1 < nf")
            case True
            with r(3) k cur' [OF True] False d d' show ?thesis by auto
          next
            case False
            with r(3) k show ?thesis by simp
          qed
          with c(3) k other out show ?thesis by auto
        next
          case later: True
          with d have "0 < d" by (cases d) auto
          with d' have more: "i + 1 < nf" by simp
          define t where "t = k - cur"
          have t: "nch \<le> t" "k - (cur + nch) = t - nch" using later unfolding t_def by linarith+
          have md: "(t - nch) mod nch = t mod nch" using t(1) by (rule le_mod_geq [symmetric])
          have dv: "t div nch = Suc ((t - nch) div nch)" using nch t(1) by (rule le_div_geq)
          from r(3) k have "dst' ! k =
            (if i + 1 < nf \<and> ?cur \<le> k \<and> k < ?cur + (nf - (i + 1)) * nch
             then buf ! (((k - ?cur) mod nch) * nf + (i + 1 + (k - ?cur) div nch))
             else dst1 ! k)" by blast
          moreover have "k < cur + nch + d * nch" using later d by simp
          ultimately have "dst' ! k =
              buf ! (((k - (cur + nch)) mod nch) * nf + (i + 1 + (k - (cur + nch)) div nch))"
            unfolding cur' [OF more] d' using more later by simp
          then have "dst' ! k = buf ! ((t mod nch) * nf + (i + t div nch))"
            unfolding t(2) md dv by simp
          moreover have "cur \<le> k \<and> k < cur + (nf - i) * nch" using later by linarith
          ultimately show ?thesis using True unfolding t_def by simp
        qed
      qed
    qed
    with e r(2) show ?thesis by blast
  qed
qed

text \<open>
  Claim C7. In the int16 build both conversions keep the sample. For \<open>nf\<close> frames of
  \<open>nch\<close> channels lying in the source region from the cursor on, a scratch buffer of at
  least \<open>nch * nf\<close> samples and a sink region with room for the frames from its cursor
  on, de-interlacing succeeds and interlacing the scratch buffer back succeeds, the
  samples written are the samples read, in the same interleaved order, and the rest of
  the sink region is untouched. When both regions are exactly the \<open>nf * nch\<close> samples,
  the sink region ends up equal to the source region.
\<close>

theorem deinterlace_then_interlace_reproduces_input:
  assumes "scur + nf * nch \<le> length src"
    and "dcur + nf * nch \<le> length dst"
    and "nch * nf \<le> length buf"
  shows "\<exists>buf' dst'.
           deinterlace src scur nf nch 0 buf = Inr buf'
           \<and> interlace buf' nf nch 0 dcur dst = Inr dst'
           \<and> length dst' = length dst
           \<and> (\<forall>m<nf * nch. dst' ! (dcur + m) = src ! (scur + m))
           \<and> (\<forall>k<length dst. k < dcur \<or> dcur + nf * nch \<le> k \<longrightarrow> dst' ! k = dst ! k)
           \<and> (scur = 0 \<and> dcur = 0 \<and> length src = nf * nch \<and> length dst = nf * nch
                \<longrightarrow> dst' = src)"
proof -
  have p1: "0 < nf \<longrightarrow> scur + (nf - 0) * nch \<le> length src" using assms(1) by simp
  have p2: "0 < nf \<longrightarrow> dcur + (nf - 0) * nch \<le> length dst" using assms(2) by simp
  from deinterlace_result [OF p1 assms(3)]
  obtain buf' where
    b: "deinterlace src scur nf nch 0 buf = Inr buf'" "length buf' = length buf"
       "\<forall>k<length buf. buf' ! k =
          (if 0 < nf \<and> 0 \<le> k mod nf \<and> k div nf < nch
           then src ! (scur + (k mod nf - 0) * nch + k div nf) else buf ! k)"
    by blast
  have buf_len: "nch * nf \<le> length buf'" using assms(3) b(2) by simp
  from interlace_result [OF p2 buf_len]
  obtain dst' where
    d: "interlace buf' nf nch 0 dcur dst = Inr dst'" "length dst' = length dst"
       "\<forall>k<length dst. dst' ! k =
          (if 0 < nf \<and> dcur \<le> k \<and> k < dcur + (nf - 0) * nch
           then buf' ! (((k - dcur) mod nch) * nf + (0 + (k - dcur) div nch)) else dst ! k)"
    by blast
  have span: "dst' ! (dcur + m) = src ! (scur + m)" if m: "m < nf * nch" for m
  proof -
    have pos: "0 < nf" "0 < nch" using m by (cases nf, simp, simp, cases nch, simp, simp)
    have ch: "m mod nch < nch" using pos by simp
    have fr: "m div nch < nf" using m pos by (simp add: less_mult_imp_div_less)
    let ?j = "(m mod nch) * nf + m div nch"
    have ix: "?j < length buf"
      using planar_bound [OF fr ch] assms(3) by simp
    have jm: "?j mod nf = m div nch" "?j div nf = m mod nch" using fr by simp_all
    have k: "dcur + m < length dst" using m assms(2) by simp
    from d(3) k have "dst' ! (dcur + m) =
          (if 0 < nf \<and> dcur \<le> dcur + m \<and> dcur + m < dcur + (nf - 0) * nch
           then buf' ! (((dcur + m - dcur) mod nch) * nf + (0 + (dcur + m - dcur) div nch))
           else dst ! (dcur + m))" by blast
    then have 1: "dst' ! (dcur + m) = buf' ! ?j" using pos m by simp
    from b(3) ix have "buf' ! ?j =
          (if 0 < nf \<and> 0 \<le> ?j mod nf \<and> ?j div nf < nch
           then src ! (scur + (?j mod nf - 0) * nch + ?j div nf) else buf ! ?j)" by blast
    then have 2: "buf' ! ?j = src ! (scur + ((m div nch) * nch + m mod nch))"
      unfolding jm using pos ch by (simp add: add.assoc)
    have "(m div nch) * nch + m mod nch = m" by simp
    with 1 2 show ?thesis by simp
  qed
  have rest: "dst' ! k = dst ! k" if kl: "k < length dst" and ko: "k < dcur \<or> dcur + nf * nch \<le> k" for k
  proof -
    from d(3) kl have "dst' ! k =
          (if 0 < nf \<and> dcur \<le> k \<and> k < dcur + (nf - 0) * nch
           then buf' ! (((k - dcur) mod nch) * nf + (0 + (k - dcur) div nch)) else dst ! k)"
      by blast
    moreover have "\<not> (dcur \<le> k \<and> k < dcur + (nf - 0) * nch)" using ko by auto
    ultimately show ?thesis by auto
  qed
  have whole: "dst' = src"
    if w: "scur = 0 \<and> dcur = 0 \<and> length src = nf * nch \<and> length dst = nf * nch"
  proof (rule nth_equalityI)
    show "length dst' = length src" using w d(2) by simp
    fix m assume "m < length dst'"
    then have "m < nf * nch" using w d(2) by simp
    from span [OF this] w show "dst' ! m = src ! m" by simp
  qed
  from b(1) d(1,2) span rest whole show ?thesis by blast
qed

text \<open>The equations that run one cycle on the test doubles.\<close>

lemmas run_simps =
  google_rtc_audio_processing_process_def process_reconfigure_def
  google_rtc_audio_processing_reconfigure_def process_reference_def process_capture_def
  process_output_def Let_def frames_def channels_def
  deinterlace.simps deinterlace_channels.simps interlace.simps interlace_channels.simps
  convert_int16_to_google_aec_format_def convert_google_aec_format_to_int16_def
  stub_externals_def stub_cd_def stub_fmt_def stub_source_def stub_sink_def

text \<open>
  Claim C4 at pins that carry whole 4-channel frames. The module starts with four
  capture channels; a blob sets the count to three, which prepare accepts (it compares
  the count with the pins before the blob is applied, and nothing compares it with them
  afterwards). The microphone region is 24 bytes, three frames, and holds the 16 bytes
  of the cycle from byte 16 on, so the view wraps. The loop steps by the module's three
  channels: the second frame starts at the last sample of the region, the cursor has
  not been taken back to the region start, and the frame's second sample lies behind
  the region's end.
\<close>

theorem capture_stride_overruns_region:
  "google_rtc_audio_processing_prepare
     (stub_externals 0
        (stub_msg\<lparr>num_capture_output_channels := 3, num_capture_output_channels_present := True\<rparr>))
     ((stub_cd (Some [1]) True)
        \<lparr>audio_fmt := stub_fmt 4, num_capture_channels := 4,
         process_buffer := [0, 0, 0, 0, 0, 0, 0, 0]\<rparr>)
     [stub_source 0 2 0 [1, 2, 3, 4],
      stub_source 1 4 8 [11, 12, 13, 14, 21, 22, 23, 24, 31, 32, 33, 34]]
     [stub_sink 48000 4 0 [0, 0, 0, 0, 0, 0, 0, 0, 0, 0, 0, 0]]
   = Inr (0,
          (stub_cd (Some [1]) False)
            \<lparr>audio_fmt := stub_fmt 4, num_capture_channels := 3,
             process_buffer := [0, 0, 0, 0, 0, 0, 0, 0],
             calls := [Call_SetStreamFormats 48000 3 3 48000 2]\<rparr>,
          [source_set_alignment_constants (stub_source 0 2 0 [1, 2, 3, 4]) 1 1,
           source_set_alignment_constants
             (stub_source 1 4 8 [11, 12, 13, 14, 21, 22, 23, 24, 31, 32, 33, 34]) 1 1],
          [sink_set_alignment_constants
             (stub_sink 48000 4 0 [0, 0, 0, 0, 0, 0, 0, 0, 0, 0, 0, 0]) 1 1])
   \<and> unat (num_frames (stub_cd (Some [1]) False) *
             source_frame_bytes
               (stub_source 1 4 8 [11, 12, 13, 14, 21, 22, 23, 24, 31, 32, 33, 34]))
       \<le> 2 * length [11, 12, 13, 14, 21, 22, 23, 24, 31, 32, 33, 34 :: s16]
   \<and> google_rtc_audio_processing_process
     (stub_externals 0
        (stub_msg\<lparr>num_capture_output_channels := 3, num_capture_output_channels_present := True\<rparr>))
     ((stub_cd (Some [1]) False)
        \<lparr>audio_fmt := stub_fmt 4, num_capture_channels := 3,
         process_buffer := [0, 0, 0, 0, 0, 0, 0, 0],
         calls := [Call_SetStreamFormats 48000 3 3 48000 2]\<rparr>)
     [source_set_alignment_constants (stub_source 0 2 0 [1, 2, 3, 4]) 1 1,
      source_set_alignment_constants
        (stub_source 1 4 8 [11, 12, 13, 14, 21, 22, 23, 24, 31, 32, 33, 34]) 1 1]
     [sink_set_alignment_constants
        (stub_sink 48000 4 0 [0, 0, 0, 0, 0, 0, 0, 0, 0, 0, 0, 0]) 1 1]
   = Inl Region_overrun"
  by (simp add: run_simps google_rtc_audio_processing_prepare_def upt_0_2 prepare_source_step_def
        prepare_checks_def source_set_alignment_constants_def sink_set_alignment_constants_def
        reconfigure_apply_def reconfigure_config_def reconfigure_channels_def
        reconfigure_stream_formats_def reconfigure_parameters_def stub_msg_def word_sless_alt)

text \<open>Two frames of two channels, \<open>[5, 6, 7, 8]\<close>, come back as they were.\<close>

theorem deinterlace_then_interlace_reproduces_input_witness:
  "\<exists>buf'. deinterlace [5, 6, 7, 8] 0 2 2 0 [0, 0, 0, 0] = Inr buf'
          \<and> interlace buf' 2 2 0 0 [0, 0, 0, 0] = Inr [5, 6, 7, 8]"
  using deinterlace_then_interlace_reproduces_input
          [of 0 2 2 "[5, 6, 7, 8]" 0 "[0, 0, 0, 0]" "[0, 0, 0, 0]"]
  by auto


section \<open>Properties of \<open>ceil_divide\<close>\<close>

lemma sign_bit_test:
  "((a XOR b) AND push_bit (4 * 8 - 1) 1 = 0) \<longleftrightarrow> ((sint a < 0) = (sint b < 0))"
  for a b :: u32
proof -
  have "((a XOR b) AND 2 ^ 31 = 0) \<longleftrightarrow> \<not> bit (a XOR b) 31"
    by (rule and_exp_eq_0_iff_not_bit)
  moreover have "bit a 31 = (sint a < 0)" "bit b 31 = (sint b < 0)"
    using bit_last_iff [of a] bit_last_iff [of b] by simp_all
  ultimately show ?thesis by (simp add: bit_xor_iff)
qed

lemma int_sdiv_exact:
  fixes x y :: int
  shows "(x sdiv y) * y = x \<longleftrightarrow> y dvd x"
proof
  assume "(x sdiv y) * y = x"
  then show "y dvd x" by (metis dvd_triv_right)
next
  assume d: "y dvd x"
  then have "x sdiv y = x div y"
    by (simp add: signed_divide_int_eq_divide_int)
  with d show "(x sdiv y) * y = x" by simp
qed

lemma int_ceil_trunc:
  fixes x y :: int
  assumes "y \<noteq> 0"
  shows "- ((- x) div y) =
           (if (x < 0) = (y < 0) \<and> \<not> y dvd x then x sdiv y + 1 else x sdiv y)"
proof (cases "y dvd x")
  case True
  then have "x sdiv y = x div y" "(- x) div y = - (x div y)"
    by (simp_all add: signed_divide_int_eq_divide_int dvd_neg_div)
  with True show ?thesis by simp
next
  case False
  then have nz: "x \<noteq> 0" "x mod y \<noteq> 0" by (auto simp: dvd_eq_mod_eq_0)
  have m: "(- x) div y = - (x div y) - 1"
    using assms nz by (simp add: zdiv_zminus1_eq_if)
  have "sgn x \<noteq> sgn y \<longleftrightarrow> (x < 0) \<noteq> (y < 0)"
    using assms nz by (auto simp: sgn_if)
  then show ?thesis
    using False assms m by (auto simp add: signed_divide_int_eq_divide_int)
qed

lemma int_sdiv_bounds:
  fixes x y :: int
  assumes "- (2 ^ 31) \<le> x" "x < 2 ^ 31" "y \<noteq> 0" "\<not> (x = - (2 ^ 31) \<and> y = - 1)"
  shows "- (2 ^ 31) \<le> x sdiv y" "x sdiv y < 2 ^ 31"
proof -
  have r: "x sdiv y \<in> {- \<bar>x\<bar>..\<bar>x\<bar>}" by (rule sdiv_int_range)
  show "- (2 ^ 31) \<le> x sdiv y" using r assms by auto
  show "x sdiv y < 2 ^ 31"
  proof (cases "x = - (2 ^ 31)")
    case False
    then show ?thesis using r assms by auto
  next
    case True
    with assms have y: "y \<noteq> - 1" by simp
    show ?thesis
    proof (cases "y < 0")
      case False
      then have "x sdiv y \<le> 0" using True assms
        by (simp add: signed_divide_int_def sgn_if mult_le_0_iff pos_imp_zdiv_nonneg_iff)
      then show ?thesis by simp
    next
      case ylt: True
      then have "\<bar>y\<bar> \<ge> 2" using y by simp
      then have "\<bar>x\<bar> div \<bar>y\<bar> \<le> \<bar>x\<bar> div 2"
        by (intro zdiv_mono2) simp_all
      then show ?thesis using True ylt by (simp add: signed_divide_int_def sgn_if)
    qed
  qed
qed

lemma int_sdiv_inc_bound:
  fixes x y :: int
  assumes "- (2 ^ 31) \<le> x" "x < 2 ^ 31" "\<not> y dvd x" "y \<noteq> 0"
  shows "x sdiv y + 1 < 2 ^ 31"
proof -
  have "y \<noteq> 1" "y \<noteq> - 1" "y \<noteq> 0" using assms(3,4) by auto
  then have "\<bar>y\<bar> \<ge> 2" by simp
  then have "\<bar>x\<bar> div \<bar>y\<bar> \<le> \<bar>x\<bar> div 2"
    by (intro zdiv_mono2) simp_all
  moreover have "x sdiv y \<le> \<bar>x\<bar> div \<bar>y\<bar>"
    by (auto simp add: signed_divide_int_def sgn_if intro: order_trans [of _ 0] simp: pos_imp_zdiv_nonneg_iff)
  ultimately show ?thesis using assms by simp
qed

lemma int_sdiv_mult_range:
  fixes x y :: int
  assumes "- (2 ^ 31) \<le> x" "x < 2 ^ 31" "y \<noteq> 0"
  shows "- (2 ^ 31) \<le> (x sdiv y) * y" "(x sdiv y) * y < 2 ^ 31"
proof -
  have e: "(x sdiv y) * y = sgn x * ((\<bar>x\<bar> div \<bar>y\<bar>) * \<bar>y\<bar>)"
    by (simp add: signed_divide_int_def abs_sgn mult.assoc mult.commute)
  have m0: "0 \<le> (\<bar>x\<bar> div \<bar>y\<bar>) * \<bar>y\<bar>"
    using assms(3) by (simp add: pos_imp_zdiv_nonneg_iff)
  have "\<bar>x\<bar> = (\<bar>x\<bar> div \<bar>y\<bar>) * \<bar>y\<bar> + \<bar>x\<bar> mod \<bar>y\<bar>" by simp
  moreover have "0 \<le> \<bar>x\<bar> mod \<bar>y\<bar>" using assms(3) by simp
  ultimately have m1: "(\<bar>x\<bar> div \<bar>y\<bar>) * \<bar>y\<bar> \<le> \<bar>x\<bar>" by linarith
  show "- (2 ^ 31) \<le> (x sdiv y) * y" "(x sdiv y) * y < 2 ^ 31"
    using e m0 m1 assms(1,2) by (auto simp add: sgn_if split: if_splits)
qed

lemma sint_word_of_int_32:
  "- (2 ^ 31) \<le> k \<Longrightarrow> k < 2 ^ 31 \<Longrightarrow> sint (word_of_int k :: u32) = k"
  by (simp add: sint_sbintrunc' signed_take_bit_int_eq_self)

lemma sint_range_32: "- (2 ^ 31) \<le> sint a" "sint a < 2 ^ 31" for a :: u32
  using sint_ge [of a] sint_lt [of a] by simp_all

lemma word_mult_eq_iff_32:
  fixes a b :: u32
  assumes "- (2 ^ 31) \<le> q" "q < 2 ^ 31"
    and r: "- (2 ^ 31) \<le> q * sint b" "q * sint b < 2 ^ 31"
  shows "(word_of_int q * b = a) \<longleftrightarrow> (q * sint b = sint a)"
proof -
  have "sint (word_of_int q * b) = q * sint b"
    using r assms(1,2)
    by (simp add: sint_word_mult sint_word_of_int_32 signed_take_bit_int_eq_self)
  then show ?thesis by (metis signed_word_eqI)
qed

text \<open>
  Claim C10. For ints \<open>a\<close> and \<open>b\<close> with \<open>b\<close> nonzero and the quotient representable
  (the one excluded pair is \<open>INT_MIN / -1\<close>), \<open>ceil_divide a b\<close> returns the ceiling of
  the exact quotient \<open>a / b\<close>: with operands of different sign it is the truncated
  quotient, with operands of the same sign it is the truncated quotient plus one exactly
  when \<open>b\<close> does not divide \<open>a\<close>.
\<close>

theorem ceil_divide_is_ceiling:
  fixes a b :: u32
  assumes "b \<noteq> 0" and "\<not> (a = - (2 ^ 31) \<and> b = - 1)"
  shows "\<exists>c. ceil_divide a b = Some c
           \<and> sint c = \<lceil>real_of_int (sint a) / real_of_int (sint b)\<rceil>
           \<and> ((sint a < 0) \<noteq> (sint b < 0) \<longrightarrow> sint c = sint a sdiv sint b)
           \<and> ((sint a < 0) = (sint b < 0) \<longrightarrow>
                  sint c = sint a sdiv sint b + (if sint b dvd sint a then 0 else 1))"
proof -
  define x y q where "x = sint a" and "y = sint b" and "q = x sdiv y"
  have y0: "y \<noteq> 0" using assms(1) unfolding y_def by (metis signed_word_eqI sint_0)
  have xr: "- (2 ^ 31) \<le> x" "x < 2 ^ 31" using sint_range_32 [of a] by (simp_all add: x_def)
  have nov: "\<not> (x = - (2 ^ 31) \<and> y = - 1)"
  proof
    assume "x = - (2 ^ 31) \<and> y = - 1"
    then have "sint a = sint (- (2 ^ 31) :: u32)" "sint b = sint (- 1 :: u32)"
      by (simp_all add: x_def y_def)
    then have "a = - (2 ^ 31) \<and> b = - 1" by (metis signed_word_eqI)
    with assms(2) show False by simp
  qed
  have qr: "- (2 ^ 31) \<le> q" "q < 2 ^ 31"
    unfolding q_def using int_sdiv_bounds [OF xr y0 nov] by simp_all
  have sq: "sint (word_of_int q :: u32) = q" using qr by (rule sint_word_of_int_32)
  have ab: "- (2 ^ 31) \<le> q * y" "q * y < 2 ^ 31"
    unfolding q_def using int_sdiv_mult_range [OF xr y0] by simp_all
  have neq: "(word_of_int q * b \<noteq> a) \<longleftrightarrow> \<not> y dvd x"
    using word_mult_eq_iff_32 [OF qr, of b a] ab int_sdiv_exact [of x y]
    by (simp add: x_def y_def q_def)
  have cd: "c_int_div a b = Some (word_of_int q)"
    using assms by (simp add: c_int_div_def q_def x_def y_def)
  let ?inc = "(x < 0) = (y < 0) \<and> \<not> y dvd x"
  let ?c = "if ?inc then word_of_int q + 1 else word_of_int q :: u32"
  have res: "ceil_divide a b = Some ?c"
    using cd neq sign_bit_test [of a b] by (simp add: ceil_divide_def x_def y_def)
  have sc: "sint ?c = (if ?inc then q + 1 else q)"
  proof (cases ?inc)
    case True
    then have "q + 1 < 2 ^ 31" unfolding q_def using int_sdiv_inc_bound [OF xr _ y0] by simp
    then have "sint (word_of_int (q + 1) :: u32) = q + 1"
      using qr by (intro sint_word_of_int_32) simp_all
    with True show ?thesis by simp
  next
    case False
    then show ?thesis using sq by auto
  qed
  have ceil: "\<lceil>real_of_int x / real_of_int y\<rceil> = (if ?inc then q + 1 else q)"
    using int_ceil_trunc [OF y0, of x] by (simp add: ceiling_divide_eq_div q_def)
  show ?thesis
    using res sc ceil by (auto simp add: x_def y_def q_def)
qed

theorem ceil_divide_is_ceiling_witness:
  "(\<exists>c. ceil_divide 10 3 = Some c \<and> sint c = \<lceil>real_of_int 10 / real_of_int 3\<rceil> \<and> sint c = 4)
   \<and> (\<exists>c. ceil_divide (- 7) 2 = Some c \<and> sint c = \<lceil>real_of_int (- 7) / real_of_int 2\<rceil>
          \<and> sint c = - 3)"
  using ceil_divide_is_ceiling [of 3 10] ceil_divide_is_ceiling [of 2 "- 7"]
  by (auto simp add: signed_divide_int_def)

end
